theory Spec2Isabelle
  imports Main
begin

section \<open>Values exchanged over HTTP\<close>

text \<open>
  The handlers of the application return Python dictionaries with string keys, which the
  framework serialises as JSON objects. Only strings and objects occur in the program.
\<close>

datatype json = JStr string | JObj "(string \<times> json) list"

record request =
  http_method :: string
  path :: string
  headers :: "(string \<times> string) list"
  body :: string

text \<open>
  The functions that a route can dispatch to. \<open>Root\<close> is the only one the repository
  defines (\<open>main.py\<close>, lines 32-34); the other four are the documentation pages that
  the framework's constructor \<open>FastAPI()\<close> installs with its default arguments.
\<close>

datatype endpoint = Root | OpenapiSchema | SwaggerUI | SwaggerRedirect | ReDoc

datatype content = Json json | Page endpoint | NoContent

record response =
  status :: nat
  content :: content
  location :: "string option"

section \<open>The route group of \<open>app/api/routes_auth.py\<close>\<close>

record route =
  route_path :: string
  methods :: "string list"
  endpoint :: endpoint
  status_code :: nat
  route_tags :: "string list"
  route_responses :: "(nat \<times> (string \<times> string) list) list"

datatype hook = OnStartup

record api_router =
  prefix :: string
  tags :: "string list"
  responses :: "(nat \<times> (string \<times> string) list) list"
  router_routes :: "route list"
  router_on_startup :: "hook list"

text \<open>
  \<open>APIRouter(prefix=..., tags=..., responses=...)\<close>: a fresh route group. Its route list
  starts empty; the three arguments are kept to be merged into every route that is later
  declared on the group.
\<close>

definition APIRouter ::
  "string \<Rightarrow> string list \<Rightarrow> (nat \<times> (string \<times> string) list) list \<Rightarrow> api_router" where
  "APIRouter p ts rs =
     \<lparr>prefix = p, tags = ts, responses = rs, router_routes = [], router_on_startup = []\<rparr>"

text \<open>Lines 5-9 of \<open>routes_auth.py\<close>. The module declares no route on the group.\<close>

definition router :: api_router where
  "router = APIRouter ''/auth'' [''auth''] [(404, [(''description'', ''Not found'')])]"

section \<open>The database engine (\<open>main.py\<close>, lines 6-14)\<close>

definition sqlite_file_name :: string where
  "sqlite_file_name = ''database.db''"

definition sqlite_url :: string where
  "sqlite_url = ''sqlite:///'' @ sqlite_file_name"

definition connect_args :: "(string \<times> bool) list" where
  "connect_args = [(''check_same_thread'', False)]"

record engine_cfg =
  url :: string
  args :: "(string \<times> bool) list"

definition create_engine :: "string \<Rightarrow> (string \<times> bool) list \<Rightarrow> engine_cfg" where
  "create_engine u a = \<lparr>url = u, args = a\<rparr>"

definition engine :: engine_cfg where
  "engine = create_engine sqlite_url connect_args"

text \<open>The file that a \<open>sqlite:///\<close> URL names, relative to the working directory.\<close>

definition db_path :: "engine_cfg \<Rightarrow> string" where
  "db_path e = drop (length ''sqlite:///'') (url e)"

section \<open>The application object and the program state\<close>

record application =
  routes :: "route list"
  on_startup_hooks :: "hook list"

text \<open>
  Everything the program can read or change: the two module-level objects of \<open>main.py\<close>
  (\<open>engine\<close> and \<open>app\<close>), the files on disk (a database file is the list of the tables
  it holds), whether the database file can be opened or created, whether it can be
  written, the number of connections made to it so far, and the sessions that are open.
\<close>

record world =
  the_engine :: engine_cfg
  the_app :: application
  files :: "string \<rightharpoonup> string list"
  can_open :: bool
  can_write :: bool
  connects :: nat
  open_sessions :: "nat set"
  next_session :: nat

datatype error = OperationalError

text \<open>
  Opening a connection: SQLite opens the file named by the engine, creating an empty
  database when the file is absent, and raises when that cannot be done.
\<close>

definition connect :: "engine_cfg \<Rightarrow> world \<Rightarrow> error option \<times> world" where
  "connect e w =
     (let w1 = w\<lparr>connects := connects w + 1\<rparr> in
      if \<not> can_open w then (Some OperationalError, w1)
      else (case files w (db_path e) of
              Some ts \<Rightarrow> (None, w1)
            | None \<Rightarrow> (None, w1\<lparr>files := (files w)(db_path e \<mapsto> [])\<rparr>)))"

text \<open>
  \<open>MetaData.create_all(engine)\<close> with its default \<open>checkfirst=True\<close>: connect, then
  issue one \<open>CREATE TABLE\<close> for every declared table that the database does not hold
  yet. A table that is present is left alone.
\<close>

definition missing_tables :: "string list \<Rightarrow> string list \<Rightarrow> string list" where
  "missing_tables declared present = filter (\<lambda>t. t \<notin> set present) (remdups declared)"

definition create_all :: "string list \<Rightarrow> engine_cfg \<Rightarrow> world \<Rightarrow> error option \<times> world" where
  "create_all declared e w =
     (case connect e w of
        (Some err, w1) \<Rightarrow> (Some err, w1)
      | (None, w1) \<Rightarrow>
          (case files w1 (db_path e) of
             None \<Rightarrow> (Some OperationalError, w1)
           | Some present \<Rightarrow>
               (if missing_tables declared present = [] then (None, w1)
                else if can_write w1
                  then (None, w1\<lparr>files := (files w1)(db_path e \<mapsto>
                                   present @ missing_tables declared present)\<rparr>)
                  else (Some OperationalError, w1))))"

text \<open>
  \<open>SQLModel.metadata\<close>: the tables declared by model classes. The repository declares no
  model class, so the collection is empty.
\<close>

definition metadata :: "string list" where
  "metadata = []"

text \<open>Lines 13-14 of \<open>main.py\<close>. The engine is read from the module-level variable.\<close>

definition create_db_and_tables :: "world \<Rightarrow> error option \<times> world" where
  "create_db_and_tables w = create_all metadata (the_engine w) w"

section \<open>The session dependency (\<open>main.py\<close>, lines 17-19)\<close>

text \<open>
  \<open>get_session\<close> is a generator whose only \<open>yield\<close> stands inside a \<open>with\<close> block.
  Running it up to the \<open>yield\<close> builds a session on the engine and enters the block; the
  session is then handed to the request handler.
\<close>

definition get_session_enter :: "world \<Rightarrow> nat \<times> world" where
  "get_session_enter w =
     (next_session w,
      w\<lparr>open_sessions := insert (next_session w) (open_sessions w),
        next_session := next_session w + 1\<rparr>)"

text \<open>
  The ways a request can leave its handler. The framework resumes the generator after a
  normal return and throws the exception into it at the \<open>yield\<close> otherwise.
\<close>

datatype exit_path = Returned | Raised | Cancelled

text \<open>
  Leaving the \<open>with\<close> block runs \<open>Session.__exit__\<close>, which closes the session, whether
  the block is left by falling off its end or by an exception passing through it. The
  result says whether an exception goes on to the caller.
\<close>

fun get_session_exit :: "exit_path \<Rightarrow> nat \<Rightarrow> world \<Rightarrow> bool \<times> world" where
  "get_session_exit Returned s w = (False, w\<lparr>open_sessions := open_sessions w - {s}\<rparr>)"
| "get_session_exit Raised s w = (True, w\<lparr>open_sessions := open_sessions w - {s}\<rparr>)"
| "get_session_exit Cancelled s w = (True, w\<lparr>open_sessions := open_sessions w - {s}\<rparr>)"

text \<open>
  A request whose handler declares \<open>SessionDep\<close>: the framework runs the dependency up to
  its \<open>yield\<close>, calls the handler with the session, and finishes the generator on the
  handler's exit path.
\<close>

definition request_with_session ::
  "(nat \<Rightarrow> world \<Rightarrow> exit_path \<times> world) \<Rightarrow> world \<Rightarrow> exit_path \<times> world" where
  "request_with_session handler w =
     (case get_session_enter w of
        (s, w1) \<Rightarrow>
          (case handler s w1 of
             (how, w2) \<Rightarrow> (how, snd (get_session_exit how s w2))))"

section \<open>Building the application (\<open>main.py\<close>, lines 24-34)\<close>

text \<open>A documentation route of the framework: it answers \<open>GET\<close>, and \<open>HEAD\<close> with it.\<close>

definition doc_route :: "string \<Rightarrow> endpoint \<Rightarrow> route" where
  "doc_route p f =
     \<lparr>route_path = p, methods = [''GET'', ''HEAD''], endpoint = f, status_code = 200,
      route_tags = [], route_responses = []\<rparr>"

text \<open>\<open>FastAPI()\<close> with no argument: the four default documentation routes, no hook.\<close>

definition FastAPI :: application where
  "FastAPI =
     \<lparr>routes = [doc_route ''/openapi.json'' OpenapiSchema,
                doc_route ''/docs'' SwaggerUI,
                doc_route ''/docs/oauth2-redirect'' SwaggerRedirect,
                doc_route ''/redoc'' ReDoc],
      on_startup_hooks = []\<rparr>"

text \<open>
  \<open>app.include_router(r)\<close> copies every route of the group into the application's
  table, and its startup hooks with them. The group's prefix, tags and response
  descriptions already sit on its routes; nothing of the group other than its routes
  and hooks reaches the application.
\<close>

definition include_router :: "application \<Rightarrow> api_router \<Rightarrow> application" where
  "include_router a r =
     a\<lparr>routes := routes a @ router_routes r,
       on_startup_hooks := on_startup_hooks a @ router_on_startup r\<rparr>"

text \<open>\<open>@app.on_event("startup")\<close> appends the decorated function to the startup hooks.\<close>

definition on_event_startup :: "application \<Rightarrow> hook \<Rightarrow> application" where
  "on_event_startup a h = a\<lparr>on_startup_hooks := on_startup_hooks a @ [h]\<rparr>"

text \<open>\<open>@app.get(p)\<close> appends a route that answers \<open>GET\<close> only, with status 200.\<close>

definition app_get :: "application \<Rightarrow> string \<Rightarrow> endpoint \<Rightarrow> application" where
  "app_get a p f =
     a\<lparr>routes := routes a @
        [\<lparr>route_path = p, methods = [''GET''], endpoint = f, status_code = 200,
          route_tags = [], route_responses = []\<rparr>]\<rparr>"

text \<open>The module-level statements of \<open>main.py\<close>, lines 24-34, in their order.\<close>

definition app :: application where
  "app = app_get (on_event_startup (include_router FastAPI router) OnStartup) ''/'' Root"

section \<open>The handlers\<close>

text \<open>Lines 33-34: \<open>root\<close> takes no argument and returns a literal dictionary.\<close>

definition root :: json where
  "root = JObj [(''message'', JStr ''Hello World'')]"

text \<open>Lines 28-29: the startup hook calls schema initialisation and nothing else.\<close>

definition on_startup :: "world \<Rightarrow> error option \<times> world" where
  "on_startup w = create_db_and_tables w"

fun run_hook :: "hook \<Rightarrow> world \<Rightarrow> error option \<times> world" where
  "run_hook OnStartup w = on_startup w"

text \<open>
  Calling the function of a route. None of the functions takes the request, a session
  or any other dependency as a parameter, and none touches the program state.
\<close>

fun call_endpoint :: "endpoint \<Rightarrow> world \<Rightarrow> content \<times> world" where
  "call_endpoint Root w = (Json root, w)"
| "call_endpoint f w = (Page f, w)"

section \<open>Dispatching a request\<close>

text \<open>\<open>p\<close> begins with \<open>pre\<close> (Python's \<open>p.startswith(pre)\<close>).\<close>

definition starts_with :: "string \<Rightarrow> string \<Rightarrow> bool" where
  "starts_with pre p \<longleftrightarrow> take (length pre) p = pre"

text \<open>
  The framework compiles a literal route path \<open>p\<close> to the regular expression \<open>^p$\<close> and
  matches the request path against it. In Python \<open>$\<close> also matches before a line feed
  that ends the string.
\<close>

definition path_matches :: "string \<Rightarrow> string \<Rightarrow> bool" where
  "path_matches pat p \<longleftrightarrow> p = pat \<or> p = pat @ [CHR 0x0A]"

datatype found = Hit route | MethodMiss route | Miss

text \<open>
  The routes are tried in the order of the table. The first route matching both path and
  method wins; failing that, the first route matching the path only is kept.
\<close>

fun find_route :: "route list \<Rightarrow> string \<Rightarrow> string \<Rightarrow> route option \<Rightarrow> found" where
  "find_route [] m p partial = (case partial of None \<Rightarrow> Miss | Some r \<Rightarrow> MethodMiss r)"
| "find_route (r # rs) m p partial =
     (if path_matches (route_path r) p then
        (if m \<in> set (methods r) then Hit r
         else find_route rs m p (case partial of None \<Rightarrow> Some r | Some q \<Rightarrow> Some q))
      else find_route rs m p partial)"

text \<open>Python's \<open>s.rstrip("/")\<close>.\<close>

definition rstrip_slash :: "string \<Rightarrow> string" where
  "rstrip_slash p = rev (dropWhile (\<lambda>c. c = CHR ''/'') (rev p))"

text \<open>
  When no route matches, the framework looks for a route that would match the path with
  its trailing slash removed, or added when there is none, and redirects to it.
\<close>

definition toggle_slash :: "string \<Rightarrow> string" where
  "toggle_slash p = (if p \<noteq> [] \<and> last p = CHR ''/'' then rstrip_slash p else p @ ''/'')"

definition not_found :: response where
  "not_found = \<lparr>status = 404, content = Json (JObj [(''detail'', JStr ''Not Found'')]),
                location = None\<rparr>"

definition method_not_allowed :: response where
  "method_not_allowed =
     \<lparr>status = 405, content = Json (JObj [(''detail'', JStr ''Method Not Allowed'')]),
      location = None\<rparr>"

definition redirect :: "string \<Rightarrow> response" where
  "redirect p = \<lparr>status = 307, content = NoContent, location = Some p\<rparr>"

text \<open>
  One request against the application held in the program state: the response, and the
  program state after it.
\<close>

definition handle :: "world \<Rightarrow> request \<Rightarrow> response \<times> world" where
  "handle w rq =
     (case find_route (routes (the_app w)) (http_method rq) (path rq) None of
        Hit r \<Rightarrow>
          (case call_endpoint (endpoint r) w of
             (c, w1) \<Rightarrow> (\<lparr>status = status_code r, content = c, location = None\<rparr>, w1))
      | MethodMiss r \<Rightarrow> (method_not_allowed, w)
      | Miss \<Rightarrow>
          (if path rq \<noteq> ''/'' \<and>
              list_ex (\<lambda>r. path_matches (route_path r) (toggle_slash (path rq)))
                (routes (the_app w))
           then (redirect (toggle_slash (path rq)), w)
           else (not_found, w)))"

section \<open>Startup\<close>

text \<open>The startup hooks run in the order of their registration; the first error ends it.\<close>

fun startup :: "hook list \<Rightarrow> world \<Rightarrow> error option \<times> world" where
  "startup [] w = (None, w)"
| "startup (h # hs) w =
     (case run_hook h w of
        (Some e, w1) \<Rightarrow> (Some e, w1)
      | (None, w1) \<Rightarrow> startup hs w1)"

datatype phase = Uninitialized | Serving | Failed

record server =
  phase :: phase
  state :: world

datatype event = StartupComplete | StartupFailed error | Handled request response

text \<open>
  Modelled from the spec: the hosting server that launches the application is not part
  of the repository. Following sections 2 and 4.2 of the specification, the process has
  the lifecycle states uninitialized, serving and failed: the startup hooks run first;
  when they succeed the process starts serving, when one fails the process is in the
  terminal failed state.
\<close>

definition boot :: "server \<Rightarrow> event \<times> server" where
  "boot s =
     (case startup (on_startup_hooks (the_app (state s))) (state s) of
        (None, w) \<Rightarrow> (StartupComplete, \<lparr>phase = Serving, state = w\<rparr>)
      | (Some e, w) \<Rightarrow> (StartupFailed e, \<lparr>phase = Failed, state = w\<rparr>))"

text \<open>
  Modelled from the spec: the serving state of the hosting server. A request is
  dispatched to the application and its response recorded.
\<close>

definition serve :: "server \<Rightarrow> request \<Rightarrow> event \<times> server" where
  "serve s rq =
     (case handle (state s) rq of (rsp, w) \<Rightarrow> (Handled rq rsp, s\<lparr>state := w\<rparr>))"

text \<open>
  Modelled from the spec: the steps of the hosting server. An uninitialized process can
  only boot, a serving process can only take requests, a failed process does nothing.
\<close>

inductive step :: "server \<Rightarrow> event \<Rightarrow> server \<Rightarrow> bool" where
  step_boot: "phase s = Uninitialized \<Longrightarrow> boot s = (ev, s') \<Longrightarrow> step s ev s'"
| step_serve: "phase s = Serving \<Longrightarrow> serve s rq = (ev, s') \<Longrightarrow> step s ev s'"

text \<open>Modelled from the spec: an execution of the process, with the events in order.\<close>

inductive run :: "server \<Rightarrow> event list \<Rightarrow> server \<Rightarrow> bool" where
  run_nil: "run s [] s"
| run_snoc: "run s tr s' \<Longrightarrow> step s' ev s'' \<Longrightarrow> run s (tr @ [ev]) s''"

text \<open>The process as launched, around a given program state.\<close>

definition launch :: "world \<Rightarrow> server" where
  "launch w = \<lparr>phase = Uninitialized, state = w\<rparr>"

fun is_handled :: "event \<Rightarrow> bool" where
  "is_handled (Handled rq rsp) = True"
| "is_handled ev = False"

text \<open>
  The program state when the module \<open>main.py\<close> has been loaded, for given files and
  file permissions: no connection made yet, no session open.
\<close>

definition loaded :: "(string \<rightharpoonup> string list) \<Rightarrow> bool \<Rightarrow> bool \<Rightarrow> world" where
  "loaded fs opn wr =
     \<lparr>the_engine = engine, the_app = app, files = fs, can_open = opn, can_write = wr,
      connects = 0, open_sessions = {}, next_session = 0\<rparr>"

text \<open>
  The paths that a route of \<open>app\<close> matches without being the root path: the four
  documentation paths, and each of the five route paths followed by a line feed.
\<close>

definition routed_stems :: "string list" where
  "routed_stems =
     [[CHR ''/'', CHR 0x0A],
      ''/openapi.json'', ''/openapi.json'' @ [CHR 0x0A],
      ''/docs'', ''/docs'' @ [CHR 0x0A],
      ''/docs/oauth2-redirect'', ''/docs/oauth2-redirect'' @ [CHR 0x0A],
      ''/redoc'', ''/redoc'' @ [CHR 0x0A]]"

text \<open>
  The request paths that no route of \<open>app\<close> matches, neither as they are nor with the
  trailing slash toggled: not empty, not the root path, and not one of the paths above
  once the trailing slashes are removed.
\<close>

definition unrouted :: "string \<Rightarrow> bool" where
  "unrouted p \<longleftrightarrow> p \<noteq> [] \<and> p \<noteq> ''/'' \<and> rstrip_slash p \<notin> set routed_stems"

section \<open>The route table\<close>

lemma routes_app:
  "routes app =
     [doc_route ''/openapi.json'' OpenapiSchema, doc_route ''/docs'' SwaggerUI,
      doc_route ''/docs/oauth2-redirect'' SwaggerRedirect, doc_route ''/redoc'' ReDoc,
      \<lparr>route_path = ''/'', methods = [''GET''], endpoint = Root, status_code = 200,
       route_tags = [], route_responses = []\<rparr>]"
  by (simp add: app_def app_get_def on_event_startup_def include_router_def FastAPI_def
      router_def APIRouter_def)

lemma hooks_app: "on_startup_hooks app = [OnStartup]"
  by (simp add: app_def app_get_def on_event_startup_def include_router_def FastAPI_def
      router_def APIRouter_def)

lemma find_route_root:
  "find_route (routes app) ''GET'' ''/'' None =
     Hit \<lparr>route_path = ''/'', methods = [''GET''], endpoint = Root, status_code = 200,
          route_tags = [], route_responses = []\<rparr>"
  by (simp add: routes_app doc_route_def path_matches_def)

lemma handle_root:
  assumes "the_app w = app" and "http_method rq = ''GET''" and "path rq = ''/''"
  shows "handle w rq =
    (\<lparr>status = 200, content = Json (JObj [(''message'', JStr ''Hello World'')]),
      location = None\<rparr>, w)"
  using assms by (simp add: handle_def find_route_root root_def)

subsection \<open>Prefixes and trailing slashes\<close>

lemma starts_with_append: "starts_with pre (pre @ rest)"
  by (simp add: starts_with_def)

lemma starts_with_iff: "starts_with pre p \<longleftrightarrow> (\<exists>rest. p = pre @ rest)"
proof
  assume "starts_with pre p"
  then have "p = pre @ drop (length pre) p"
    by (metis append_take_drop_id starts_with_def)
  then show "\<exists>rest. p = pre @ rest" ..
next
  assume "\<exists>rest. p = pre @ rest"
  then show "starts_with pre p" by (auto simp: starts_with_def)
qed

lemma starts_with_trans: "starts_with a b \<Longrightarrow> starts_with b c \<Longrightarrow> starts_with a c"
proof -
  assume ab: "starts_with a b" and bc: "starts_with b c"
  from ab have "length a \<le> length b"
    by (metis starts_with_def length_take min.cobounded1)
  then have "take (length a) c = take (length a) (take (length b) c)"
    by (simp add: min_def)
  also have "\<dots> = take (length a) b" using bc by (simp add: starts_with_def)
  also have "\<dots> = a" using ab by (simp add: starts_with_def)
  finally show ?thesis by (simp add: starts_with_def)
qed

lemma rstrip_slash_decomp:
  "rstrip_slash p @ rev (takeWhile (\<lambda>c. c = CHR ''/'') (rev p)) = p"
proof -
  have "rev (takeWhile (\<lambda>c. c = CHR ''/'') (rev p) @ dropWhile (\<lambda>c. c = CHR ''/'') (rev p)) = p"
    by (simp only: takeWhile_dropWhile_id rev_rev_ident)
  then show ?thesis by (simp only: rev_append rstrip_slash_def)
qed

lemma starts_with_rstrip: "starts_with (rstrip_slash p) p"
  using starts_with_append [of "rstrip_slash p" "rev (takeWhile (\<lambda>c. c = CHR ''/'') (rev p))"]
  by (simp only: rstrip_slash_decomp)

lemma rstrip_slash_last: "rstrip_slash p \<noteq> [] \<Longrightarrow> last (rstrip_slash p) \<noteq> CHR ''/''"
  using hd_dropWhile [of "\<lambda>c. c = CHR ''/''" "rev p"]
  by (simp add: rstrip_slash_def last_rev)

subsection \<open>Paths that no route matches\<close>

lemma rstrip_slash_id: "p \<noteq> [] \<Longrightarrow> last p \<noteq> CHR ''/'' \<Longrightarrow> rstrip_slash p = p"
  by (cases p rule: rev_cases) (simp_all add: rstrip_slash_def)

lemma matched_stem:
  assumes "r \<in> set (routes app)" and "path_matches (route_path r) q"
  shows "q = ''/'' \<or> q \<in> set routed_stems"
  using assms by (auto simp: routes_app doc_route_def path_matches_def routed_stems_def)

lemma stem_matched:
  assumes "s \<in> set routed_stems"
  shows "\<exists>r \<in> set (routes app). path_matches (route_path r) s"
  using assms by (auto simp: routes_app doc_route_def path_matches_def routed_stems_def)

lemma stem_last:
  assumes "s \<in> set routed_stems"
  shows "s \<noteq> [] \<and> last s \<noteq> CHR ''/''"
  using assms by (auto simp: routed_stems_def)

lemma root_matched: "\<exists>r \<in> set (routes app). path_matches (route_path r) ''/''"
  by (simp add: routes_app doc_route_def path_matches_def)

lemma matched_last:
  assumes "r \<in> set (routes app)" and "path_matches (route_path r) q" and "last q = CHR ''/''"
  shows "q = ''/''"
  using assms by (auto simp: routes_app doc_route_def path_matches_def)

lemma no_path_matches:
  assumes "unrouted p" and "r \<in> set (routes app)"
  shows "\<not> path_matches (route_path r) p"
proof
  assume "path_matches (route_path r) p"
  with assms have s: "p \<in> set routed_stems"
    using matched_stem [of r p] by (auto simp: unrouted_def)
  then have "rstrip_slash p = p"
    using stem_last [of p] by (simp add: rstrip_slash_id)
  with s assms(1) show False by (simp add: unrouted_def)
qed

lemma no_toggle_matches:
  assumes "unrouted p" and "r \<in> set (routes app)"
  shows "\<not> path_matches (route_path r) (toggle_slash p)"
proof
  assume m: "path_matches (route_path r) (toggle_slash p)"
  show False
  proof (cases "last p = CHR ''/''")
    case True
    with assms(1) have t: "toggle_slash p = rstrip_slash p"
      by (simp add: toggle_slash_def unrouted_def)
    have "rstrip_slash p \<noteq> ''/''"
      using rstrip_slash_last [of p] by auto
    with matched_stem [OF assms(2) m] t have "rstrip_slash p \<in> set routed_stems"
      by simp
    with assms(1) show False by (simp add: unrouted_def)
  next
    case False
    with assms(1) have t: "toggle_slash p = p @ ''/''"
      by (simp add: toggle_slash_def)
    have "toggle_slash p = ''/''"
      by (rule matched_last [OF assms(2) m]) (simp add: t)
    with t assms(1) show False by (simp add: unrouted_def)
  qed
qed

lemma find_route_miss_iff:
  "find_route rs m p partial = Miss \<longleftrightarrow>
     partial = None \<and> (\<forall>r \<in> set rs. \<not> path_matches (route_path r) p)"
  by (induction rs arbitrary: partial) (auto split: option.splits)

lemma find_route_hit: "find_route rs m p partial = Hit r \<Longrightarrow> r \<in> set rs"
  by (induction rs arbitrary: partial) (auto split: option.splits if_splits)

lemma status_code_app: "r \<in> set (routes app) \<Longrightarrow> status_code r = 200"
  by (auto simp: routes_app doc_route_def)

lemma handle_404_iff:
  assumes "the_app w = app"
  shows "status (fst (handle w rq)) = 404 \<longleftrightarrow>
     (\<forall>r \<in> set (routes app). \<not> path_matches (route_path r) (path rq)) \<and>
     (path rq = ''/'' \<or>
      (\<forall>r \<in> set (routes app). \<not> path_matches (route_path r) (toggle_slash (path rq))))"
proof (cases "find_route (routes app) (http_method rq) (path rq) None")
  case (Hit r)
  then have "status_code r = 200"
    by (intro status_code_app find_route_hit)
  moreover have "\<not> (\<forall>r \<in> set (routes app). \<not> path_matches (route_path r) (path rq))"
    using Hit find_route_miss_iff [of "routes app" "http_method rq" "path rq" None] by simp
  ultimately show ?thesis
    using Hit assms by (simp add: handle_def split: prod.splits)
next
  case (MethodMiss r)
  moreover have "\<not> (\<forall>r \<in> set (routes app). \<not> path_matches (route_path r) (path rq))"
    using MethodMiss find_route_miss_iff [of "routes app" "http_method rq" "path rq" None]
    by simp
  ultimately show ?thesis
    using assms by (simp add: handle_def method_not_allowed_def)
next
  case Miss
  then have "\<forall>r \<in> set (routes app). \<not> path_matches (route_path r) (path rq)"
    by (simp add: find_route_miss_iff)
  with Miss assms show ?thesis
    by (auto simp: handle_def list_ex_iff redirect_def not_found_def)
qed

lemma unrouted_iff:
  "unrouted p \<longleftrightarrow>
     (\<forall>r \<in> set (routes app). \<not> path_matches (route_path r) p) \<and>
     (p = ''/'' \<or> (\<forall>r \<in> set (routes app). \<not> path_matches (route_path r) (toggle_slash p)))"
proof
  assume "unrouted p"
  then show "(\<forall>r \<in> set (routes app). \<not> path_matches (route_path r) p) \<and>
     (p = ''/'' \<or> (\<forall>r \<in> set (routes app). \<not> path_matches (route_path r) (toggle_slash p)))"
    using no_path_matches no_toggle_matches by blast
next
  assume a: "(\<forall>r \<in> set (routes app). \<not> path_matches (route_path r) p) \<and>
     (p = ''/'' \<or> (\<forall>r \<in> set (routes app). \<not> path_matches (route_path r) (toggle_slash p)))"
  then have n1: "p \<noteq> ''/''"
    using root_matched by auto
  with a have tg: "\<forall>r \<in> set (routes app). \<not> path_matches (route_path r) (toggle_slash p)"
    by simp
  have n2: "p \<noteq> []"
  proof
    assume "p = []"
    then have "toggle_slash p = ''/''" by (simp add: toggle_slash_def)
    with tg root_matched show False by auto
  qed
  have "rstrip_slash p \<notin> set routed_stems"
  proof
    assume s: "rstrip_slash p \<in> set routed_stems"
    show False
    proof (cases "last p = CHR ''/''")
      case True
      with n2 have "toggle_slash p = rstrip_slash p" by (simp add: toggle_slash_def)
      with tg stem_matched [OF s] show False by auto
    next
      case False
      with n2 have "rstrip_slash p = p" by (rule rstrip_slash_id)
      with a stem_matched [OF s] show False by auto
    qed
  qed
  with n1 n2 show "unrouted p" by (simp add: unrouted_def)
qed

lemma handle_unrouted:
  assumes "the_app w = app" and "unrouted (path rq)"
  shows "handle w rq = (not_found, w)"
proof -
  have "find_route (routes app) (http_method rq) (path rq) None = Miss"
    using no_path_matches [OF assms(2)] by (simp add: find_route_miss_iff)
  moreover have
    "\<not> list_ex (\<lambda>r. path_matches (route_path r) (toggle_slash (path rq))) (routes app)"
    using no_toggle_matches [OF assms(2)] by (simp add: list_ex_iff)
  ultimately show ?thesis using assms(1) by (simp add: handle_def)
qed

lemma auth_unrouted:
  assumes "starts_with ''/auth/'' p"
  shows "unrouted p"
proof -
  from assms obtain rest where p: "p = ''/auth/'' @ rest"
    by (auto simp: starts_with_iff)
  obtain x where x: "p = rstrip_slash p @ x"
    using starts_with_rstrip [of p] by (auto simp: starts_with_iff)
  have "rstrip_slash p \<notin> set routed_stems"
  proof
    assume "rstrip_slash p \<in> set routed_stems"
    with x have "\<exists>s \<in> set routed_stems. p = s @ x" by auto
    with p show False by (auto simp: routed_stems_def)
  qed
  with p show ?thesis by (simp add: unrouted_def)
qed

section \<open>The root endpoint\<close>

text \<open>
  Claim C1. Every request with method \<open>GET\<close> and path \<open>/\<close>, whatever its headers and
  body, is answered with status 200 and exactly the body \<open>{"message": "Hello World"}\<close>.
\<close>

theorem root_returns_hello_world:
  assumes "the_app w = app" and "http_method rq = ''GET''" and "path rq = ''/''"
  shows "status (fst (handle w rq)) = 200 \<and>
         content (fst (handle w rq)) = Json (JObj [(''message'', JStr ''Hello World'')])"
  using assms by (simp add: handle_root)

theorem root_returns_hello_world_witness:
  "status (fst (handle (loaded Map.empty True True)
       \<lparr>http_method = ''GET'', path = ''/'', headers = [(''x-trace'', ''1'')],
        body = ''ignored''\<rparr>)) = 200 \<and>
   content (fst (handle (loaded Map.empty True True)
       \<lparr>http_method = ''GET'', path = ''/'', headers = [(''x-trace'', ''1'')],
        body = ''ignored''\<rparr>)) =
     Json (JObj [(''message'', JStr ''Hello World'')])"
  using root_returns_hello_world [of "loaded Map.empty True True"
      "\<lparr>http_method = ''GET'', path = ''/'', headers = [(''x-trace'', ''1'')],
        body = ''ignored''\<rparr>"]
  by (simp add: loaded_def)

text \<open>
  Claim C8. Handling a \<open>GET /\<close> request has no side effect: the whole program state
  (the files on disk, the engine, the application with its route table, the connections
  and the sessions) is the same after the request as before it.
\<close>

theorem root_request_keeps_state:
  assumes "the_app w = app" and "http_method rq = ''GET''" and "path rq = ''/''"
  shows "snd (handle w rq) = w \<and> snd (call_endpoint Root w) = w"
  using assms by (simp add: handle_root)

theorem root_request_keeps_state_witness:
  "snd (handle (loaded [''database.db'' \<mapsto> [''user'']] True True)
       \<lparr>http_method = ''GET'', path = ''/'', headers = [], body = []\<rparr>) =
     loaded [''database.db'' \<mapsto> [''user'']] True True \<and>
   snd (call_endpoint Root (loaded [''database.db'' \<mapsto> [''user'']] True True)) =
     loaded [''database.db'' \<mapsto> [''user'']] True True"
  using root_request_keeps_state [of "loaded [''database.db'' \<mapsto> [''user'']] True True"
      "\<lparr>http_method = ''GET'', path = ''/'', headers = [], body = []\<rparr>"]
  by (simp add: loaded_def)

text \<open>
  Claim C10. The root handler is deterministic and independent of the database: any two
  invocations, under any two engines and any two contents of the disk, return the same
  value \<open>{"message": "Hello World"}\<close>, and so do any two \<open>GET /\<close> requests.
\<close>

theorem root_ignores_database:
  assumes "the_app w1 = app" and "the_app w2 = app"
    and "http_method rq1 = ''GET''" and "path rq1 = ''/''"
    and "http_method rq2 = ''GET''" and "path rq2 = ''/''"
  shows "fst (call_endpoint Root w1) = Json (JObj [(''message'', JStr ''Hello World'')]) \<and>
         fst (call_endpoint Root w2) = Json (JObj [(''message'', JStr ''Hello World'')]) \<and>
         fst (handle w1 rq1) = fst (handle w2 rq2)"
  using assms by (simp add: handle_root root_def)

theorem root_ignores_database_witness:
  "fst (call_endpoint Root (loaded Map.empty True True)) =
     Json (JObj [(''message'', JStr ''Hello World'')]) \<and>
   fst (call_endpoint Root
     ((loaded [''other.db'' \<mapsto> [''hero'', ''team'']] False False)
        \<lparr>the_engine := create_engine ''sqlite:///other.db'' []\<rparr>)) =
     Json (JObj [(''message'', JStr ''Hello World'')]) \<and>
   fst (handle (loaded Map.empty True True)
     \<lparr>http_method = ''GET'', path = ''/'', headers = [], body = []\<rparr>) =
   fst (handle
     ((loaded [''other.db'' \<mapsto> [''hero'', ''team'']] False False)
        \<lparr>the_engine := create_engine ''sqlite:///other.db'' []\<rparr>)
     \<lparr>http_method = ''GET'', path = ''/'', headers = [(''accept'', ''text/html'')],
      body = ''x''\<rparr>)"
  using root_ignores_database [of "loaded Map.empty True True"
      "(loaded [''other.db'' \<mapsto> [''hero'', ''team'']] False False)
        \<lparr>the_engine := create_engine ''sqlite:///other.db'' []\<rparr>"
      "\<lparr>http_method = ''GET'', path = ''/'', headers = [], body = []\<rparr>"
      "\<lparr>http_method = ''GET'', path = ''/'', headers = [(''accept'', ''text/html'')],
        body = ''x''\<rparr>"]
  by (simp add: loaded_def)

section \<open>Requests that no route answers\<close>

text \<open>
  Claim C2, as stated, fails: a request under \<open>/auth/\<close> is answered with status 404, but
  the response carries the framework's body \<open>{"detail": "Not Found"}\<close> and not the
  description \<open>{"description": "Not found"}\<close> declared on the route group.
\<close>

theorem auth_response_lacks_description:
  "content (fst (handle (loaded Map.empty True True)
      \<lparr>http_method = ''GET'', path = ''/auth/login'', headers = [], body = []\<rparr>)) =
     Json (JObj [(''detail'', JStr ''Not Found'')]) \<and>
   \<not> (status (fst (handle (loaded Map.empty True True)
      \<lparr>http_method = ''GET'', path = ''/auth/login'', headers = [], body = []\<rparr>)) = 404 \<and>
      content (fst (handle (loaded Map.empty True True)
      \<lparr>http_method = ''GET'', path = ''/auth/login'', headers = [], body = []\<rparr>)) =
        Json (JObj [(''description'', JStr ''Not found'')]))"
proof -
  have "starts_with ''/auth/'' ''/auth/login''"
    by (simp add: starts_with_def)
  then have "unrouted ''/auth/login''"
    by (rule auth_unrouted)
  then have "handle (loaded Map.empty True True)
      \<lparr>http_method = ''GET'', path = ''/auth/login'', headers = [], body = []\<rparr> =
      (not_found, loaded Map.empty True True)"
    by (intro handle_unrouted) (simp_all add: loaded_def)
  then show ?thesis by (simp add: not_found_def)
qed

text \<open>
  Claim C2, amended. Every request, of any method, to a path beginning with \<open>/auth/\<close>
  is answered with the framework's default 404 response, whose body is
  \<open>{"detail": "Not Found"}\<close>, and leaves the program state as it was. The description
  \<open>{"description": "Not found"}\<close> is declared on the route group; the group has no
  route, and no route of the application carries a response description.
\<close>

theorem auth_paths_not_found:
  assumes "the_app w = app" and "starts_with ''/auth/'' (path rq)"
  shows "handle w rq =
           (\<lparr>status = 404, content = Json (JObj [(''detail'', JStr ''Not Found'')]),
             location = None\<rparr>, w) \<and>
         responses router = [(404, [(''description'', ''Not found'')])] \<and>
         router_routes router = [] \<and>
         list_all (\<lambda>r. route_responses r = []) (routes app)"
proof -
  have "handle w rq = (not_found, w)"
    using assms by (intro handle_unrouted auth_unrouted)
  then show ?thesis
    by (simp add: not_found_def router_def APIRouter_def routes_app doc_route_def)
qed

theorem auth_paths_not_found_witness:
  "handle (loaded Map.empty True True)
      \<lparr>http_method = ''POST'', path = ''/auth/token'', headers = [], body = ''user=a''\<rparr> =
     (\<lparr>status = 404, content = Json (JObj [(''detail'', JStr ''Not Found'')]),
       location = None\<rparr>, loaded Map.empty True True) \<and>
   responses router = [(404, [(''description'', ''Not found'')])] \<and>
   router_routes router = [] \<and>
   list_all (\<lambda>r. route_responses r = []) (routes app)"
  using auth_paths_not_found [of "loaded Map.empty True True"
      "\<lparr>http_method = ''POST'', path = ''/auth/token'', headers = [], body = ''user=a''\<rparr>"]
  by (simp add: loaded_def starts_with_def)

text \<open>
  Claim C9, as stated, fails: the route table holds five routes, and a \<open>GET\<close> request to
  the path \<open>/docs\<close>, which is not \<open>/\<close>, is answered with status 200.
\<close>

theorem docs_path_is_routed:
  "length (routes app) = 5 \<and>
   status (fst (handle (loaded Map.empty True True)
      \<lparr>http_method = ''GET'', path = ''/docs'', headers = [], body = []\<rparr>)) = 200 \<and>
   \<not> (status (fst (handle (loaded Map.empty True True)
      \<lparr>http_method = ''GET'', path = ''/docs'', headers = [], body = []\<rparr>)) = 404)"
  by (simp add: handle_def loaded_def routes_app doc_route_def path_matches_def)

text \<open>
  Claim C9, amended. The mounted auth router contributes zero routes and the code of the
  repository declares exactly one endpoint, \<open>GET /\<close>; it stands in the route table after
  the four documentation routes that \<open>FastAPI()\<close> installs (\<open>/openapi.json\<close>, \<open>/docs\<close>,
  \<open>/docs/oauth2-redirect\<close>, \<open>/redoc\<close>). A request is answered with the 404 response
  exactly when its path is not empty, is not \<open>/\<close>, and, once its trailing slashes are
  removed, is neither one of the four documentation paths nor one of the five route paths
  followed by a line feed.
\<close>

theorem only_root_is_declared:
  assumes "the_app w = app"
  shows "router_routes router = [] \<and>
         map route_path (routes app) =
           [''/openapi.json'', ''/docs'', ''/docs/oauth2-redirect'', ''/redoc'', ''/''] \<and>
         map (\<lambda>r. (methods r, route_path r)) (filter (\<lambda>r. endpoint r = Root) (routes app)) =
           [([''GET''], ''/'')] \<and>
         (status (fst (handle w rq)) = 404 \<longleftrightarrow>
            path rq \<noteq> [] \<and> path rq \<noteq> ''/'' \<and>
            rstrip_slash (path rq) \<notin>
              {[CHR ''/'', CHR 0x0A],
               ''/openapi.json'', ''/openapi.json'' @ [CHR 0x0A],
               ''/docs'', ''/docs'' @ [CHR 0x0A],
               ''/docs/oauth2-redirect'', ''/docs/oauth2-redirect'' @ [CHR 0x0A],
               ''/redoc'', ''/redoc'' @ [CHR 0x0A]}) \<and>
         (fst (handle w rq) =
            \<lparr>status = 404, content = Json (JObj [(''detail'', JStr ''Not Found'')]),
             location = None\<rparr> \<longleftrightarrow> status (fst (handle w rq)) = 404)"
proof -
  have a: "status (fst (handle w rq)) = 404 \<longleftrightarrow> unrouted (path rq)"
    using handle_404_iff [OF assms, of rq] unrouted_iff [of "path rq"] by simp
  have b: "fst (handle w rq) = not_found" if "unrouted (path rq)"
    using handle_unrouted [OF assms that] by simp
  have c: "fst (handle w rq) = not_found \<longleftrightarrow> status (fst (handle w rq)) = 404"
    using a b by (auto simp: not_found_def)
  have d: "unrouted (path rq) \<longleftrightarrow>
      path rq \<noteq> [] \<and> path rq \<noteq> ''/'' \<and>
      rstrip_slash (path rq) \<notin>
        {[CHR ''/'', CHR 0x0A],
         ''/openapi.json'', ''/openapi.json'' @ [CHR 0x0A],
         ''/docs'', ''/docs'' @ [CHR 0x0A],
         ''/docs/oauth2-redirect'', ''/docs/oauth2-redirect'' @ [CHR 0x0A],
         ''/redoc'', ''/redoc'' @ [CHR 0x0A]}"
    by (simp add: unrouted_def routed_stems_def)
  have e: "router_routes router = [] \<and>
         map route_path (routes app) =
           [''/openapi.json'', ''/docs'', ''/docs/oauth2-redirect'', ''/redoc'', ''/''] \<and>
         map (\<lambda>r. (methods r, route_path r)) (filter (\<lambda>r. endpoint r = Root) (routes app)) =
           [([''GET''], ''/'')]"
    by (simp add: router_def APIRouter_def routes_app doc_route_def)
  from a c d e show ?thesis
    unfolding not_found_def by blast
qed

theorem only_root_is_declared_witness:
  "router_routes router = [] \<and>
   map route_path (routes app) =
     [''/openapi.json'', ''/docs'', ''/docs/oauth2-redirect'', ''/redoc'', ''/''] \<and>
   map (\<lambda>r. (methods r, route_path r)) (filter (\<lambda>r. endpoint r = Root) (routes app)) =
     [([''GET''], ''/'')] \<and>
   fst (handle (loaded Map.empty True True)
     \<lparr>http_method = ''GET'', path = ''/docs/foo'', headers = [], body = []\<rparr>) =
     \<lparr>status = 404, content = Json (JObj [(''detail'', JStr ''Not Found'')]),
      location = None\<rparr> \<and>
   status (fst (handle (loaded Map.empty True True)
     \<lparr>http_method = ''POST'', path = ''/redoc2/'', headers = [], body = []\<rparr>)) = 404 \<and>
   status (fst (handle (loaded Map.empty True True)
     \<lparr>http_method = ''GET'', path = ''/redoc/'', headers = [], body = []\<rparr>)) \<noteq> 404"
  using only_root_is_declared [of "loaded Map.empty True True"
      "\<lparr>http_method = ''GET'', path = ''/docs/foo'', headers = [], body = []\<rparr>"]
    only_root_is_declared [of "loaded Map.empty True True"
      "\<lparr>http_method = ''POST'', path = ''/redoc2/'', headers = [], body = []\<rparr>"]
    only_root_is_declared [of "loaded Map.empty True True"
      "\<lparr>http_method = ''GET'', path = ''/redoc/'', headers = [], body = []\<rparr>"]
  by (simp add: loaded_def rstrip_slash_def)

section \<open>Schema initialisation\<close>

text \<open>
  Creating the missing tables leaves none missing, and adds no table twice. This holds for
  any collection of declared tables, not only for the empty one of this repository.
\<close>

lemma missing_after_create:
  "missing_tables declared (present @ missing_tables declared present) = []"
  by (auto simp: missing_tables_def filter_empty_conv)

lemma distinct_after_create:
  "distinct present \<Longrightarrow> distinct (present @ missing_tables declared present)"
  by (auto simp: missing_tables_def)

lemma create_all_again:
  "fst (create_all declared e (snd (create_all declared e w))) = fst (create_all declared e w) \<and>
   files (snd (create_all declared e (snd (create_all declared e w)))) =
     files (snd (create_all declared e w))"
  by (auto simp: create_all_def connect_def Let_def missing_after_create
      missing_after_create [of _ "[]", simplified]
      split: option.splits prod.splits if_splits)

lemma create_db_and_tables_result:
  "create_db_and_tables w =
     (if can_open w
      then (None, w\<lparr>connects := connects w + 1,
                    files := (files w)(db_path (the_engine w) \<mapsto>
                      (case files w (db_path (the_engine w)) of None \<Rightarrow> [] | Some ts \<Rightarrow> ts))\<rparr>)
      else (Some OperationalError, w\<lparr>connects := connects w + 1\<rparr>))"
  by (auto simp: create_db_and_tables_def create_all_def connect_def Let_def metadata_def
      missing_tables_def fun_upd_idem split: option.splits)

lemma db_path_engine: "db_path engine = ''database.db''"
  by (simp add: db_path_def engine_def create_engine_def sqlite_url_def sqlite_file_name_def)

text \<open>
  Claim C3. Schema initialisation is idempotent: from any schema state of a database that
  can be opened, calling \<open>create_db_and_tables\<close> twice in succession raises no error, and
  the files on disk after the second call are those after the first; the database file
  holds the tables it held before, none of them twice.
\<close>

theorem create_db_and_tables_idempotent:
  assumes "can_open w"
  shows "fst (create_db_and_tables w) = None \<and>
         fst (create_db_and_tables (snd (create_db_and_tables w))) = None \<and>
         files (snd (create_db_and_tables (snd (create_db_and_tables w)))) =
           files (snd (create_db_and_tables w)) \<and>
         files (snd (create_db_and_tables w)) (db_path (the_engine w)) =
           Some (case files w (db_path (the_engine w)) of None \<Rightarrow> [] | Some ts \<Rightarrow> ts)"
  using assms by (simp add: create_db_and_tables_result)

theorem create_db_and_tables_idempotent_witness:
  "fst (create_db_and_tables (loaded [''database.db'' \<mapsto> [''hero'']] True False)) = None \<and>
   fst (create_db_and_tables
     (snd (create_db_and_tables (loaded [''database.db'' \<mapsto> [''hero'']] True False)))) = None \<and>
   files (snd (create_db_and_tables
     (snd (create_db_and_tables (loaded [''database.db'' \<mapsto> [''hero'']] True False))))) =
     files (snd (create_db_and_tables (loaded [''database.db'' \<mapsto> [''hero'']] True False))) \<and>
   files (snd (create_db_and_tables (loaded [''database.db'' \<mapsto> [''hero'']] True False)))
     ''database.db'' = Some [''hero'']"
  using create_db_and_tables_idempotent [of "loaded [''database.db'' \<mapsto> [''hero'']] True False"]
  by (simp add: loaded_def db_path_engine)

section \<open>Sessions\<close>

text \<open>
  Claim C5. For every request whose handler depends on a database session, the session
  opened by \<open>get_session\<close> is closed when the request ends, on every exit path of the
  handler (normal return, error, cancellation): whatever the handler does and however it
  exits, the session is not open afterwards, the exit path is the handler's, and no other
  session is touched.
\<close>

theorem session_released:
  "fst (get_session_enter w) \<notin> open_sessions (snd (request_with_session handler w)) \<and>
   fst (request_with_session handler w) =
     fst (handler (fst (get_session_enter w)) (snd (get_session_enter w))) \<and>
   open_sessions (snd (request_with_session handler w)) =
     open_sessions (snd (handler (fst (get_session_enter w)) (snd (get_session_enter w)))) -
       {fst (get_session_enter w)}"
proof (cases "handler (fst (get_session_enter w)) (snd (get_session_enter w))")
  case (Pair how w2)
  then show ?thesis
    by (cases how) (simp_all add: request_with_session_def get_session_enter_def)
qed

section \<open>The lifecycle of the process\<close>

lemma startup_app:
  assumes "the_app w = app"
  shows "startup (on_startup_hooks (the_app w)) w = on_startup w"
proof (cases "on_startup w")
  case (Pair r w1)
  then show ?thesis using assms by (cases r) (simp_all add: hooks_app)
qed

lemma boot_app:
  assumes "the_app w = app"
  shows "boot (launch w) =
     (case fst (on_startup w) of
        None \<Rightarrow> (StartupComplete, \<lparr>phase = Serving, state = snd (on_startup w)\<rparr>)
      | Some e \<Rightarrow> (StartupFailed e, \<lparr>phase = Failed, state = snd (on_startup w)\<rparr>))"
proof (cases "on_startup w")
  case (Pair r w1)
  then show ?thesis
    using startup_app [OF assms] by (cases r) (simp_all add: boot_def launch_def)
qed

lemma on_startup_keeps_app: "the_app (snd (on_startup w)) = the_app w"
  by (simp add: on_startup_def create_db_and_tables_result)

lemma snd_call_endpoint: "snd (call_endpoint f w) = w"
  by (cases f) simp_all

lemma snd_handle: "snd (handle w rq) = w"
proof (cases "find_route (routes (the_app w)) (http_method rq) (path rq) None")
  case (Hit r)
  obtain c w1 where ce: "call_endpoint (endpoint r) w = (c, w1)"
    by (cases "call_endpoint (endpoint r) w")
  with snd_call_endpoint [of "endpoint r" w] have "w1 = w" by simp
  with Hit ce show ?thesis by (simp add: handle_def)
next
  case (MethodMiss r)
  then show ?thesis by (simp add: handle_def)
next
  case Miss
  then show ?thesis by (simp add: handle_def)
qed

lemma serve_result: "serve s rq = (Handled rq (fst (handle (state s) rq)), s)"
proof (cases "handle (state s) rq")
  case (Pair rsp w1)
  with snd_handle [of "state s" rq] have "w1 = state s" by simp
  with Pair show ?thesis by (simp add: serve_def)
qed

lemma failed_is_terminal: "phase s = Failed \<Longrightarrow> \<not> step s ev s'"
  by (auto elim: step.cases)

lemma run_one: "step s ev s' \<Longrightarrow> run s [ev] s'"
  using run_snoc [OF run_nil, of s ev s'] by simp

lemma run_two: "step s ev s' \<Longrightarrow> step s' ev' s'' \<Longrightarrow> run s [ev, ev'] s''"
  using run_snoc [OF run_one, of s ev s' ev' s''] by simp

text \<open>
  The shape of every execution: nothing has happened yet, or startup has failed and
  nothing else has happened, or startup has completed and only requests have followed.
\<close>

lemma run_shape:
  assumes "run s0 tr s" and "s0 = launch w" and "the_app w = app"
  shows "(tr = [] \<and> s = launch w) \<or>
         (\<exists>e. fst (on_startup w) = Some e \<and> tr = [StartupFailed e] \<and>
              s = \<lparr>phase = Failed, state = snd (on_startup w)\<rparr>) \<or>
         (\<exists>rest. fst (on_startup w) = None \<and> tr = StartupComplete # rest \<and>
              list_all is_handled rest \<and>
              s = \<lparr>phase = Serving, state = snd (on_startup w)\<rparr>)"
  using assms
proof (induction rule: run.induct)
  case (run_nil s)
  then show ?case by simp
next
  case (run_snoc s tr s' ev s'')
  from run_snoc.IH [OF run_snoc.prems]
  consider (start) "tr = []" "s' = launch w"
    | (failed) "s' = \<lparr>phase = Failed, state = snd (on_startup w)\<rparr>"
    | (serving) rest where "fst (on_startup w) = None" "tr = StartupComplete # rest"
        "list_all is_handled rest" "s' = \<lparr>phase = Serving, state = snd (on_startup w)\<rparr>"
    by blast
  then show ?case
  proof cases
    case start
    with run_snoc.hyps(2) have "boot (launch w) = (ev, s'')"
      by (auto elim!: step.cases simp: launch_def)
    with start run_snoc.prems(2) show ?thesis
      by (auto simp: boot_app split: option.splits)
  next
    case failed
    with run_snoc.hyps(2) show ?thesis
      using failed_is_terminal [of s' ev s''] by simp
  next
    case serving
    with run_snoc.hyps(2) obtain rq where "serve s' rq = (ev, s'')"
      by (auto elim!: step.cases)
    then have "ev = Handled rq (fst (handle (state s') rq))" and "s'' = s'"
      by (auto simp: serve_result)
    with serving show ?thesis by simp
  qed
qed

text \<open>
  Claim C4. In every execution of the application, the startup hook (which invokes
  \<open>create_db_and_tables\<close>) completes, or startup fails fatally, strictly before the first
  request is handled: the first event of an execution is the outcome of startup, a failed
  startup is its last event, and after a completed startup only requests follow. So the
  hook runs exactly once (one connection has been made), and every request is handled in
  a state where the hook has run and the database file exists.
\<close>

theorem startup_precedes_requests:
  assumes "run (launch w) tr s" and "the_app w = app"
  shows "(tr = [] \<and> phase s = Uninitialized) \<or>
         (\<exists>e. tr = [StartupFailed e] \<and> phase s = Failed) \<or>
         (\<exists>rest. tr = StartupComplete # rest \<and> list_all is_handled rest \<and>
              phase s = Serving \<and> connects (state s) = connects w + 1 \<and>
              files (state s) (db_path (the_engine w)) \<noteq> None)"
  using run_shape [OF assms(1) refl assms(2)]
  by (auto simp: launch_def on_startup_def create_db_and_tables_result split: if_splits)

theorem startup_precedes_requests_witness:
  "run (launch (loaded Map.empty True True))
     [StartupComplete,
      Handled \<lparr>http_method = ''GET'', path = ''/'', headers = [], body = []\<rparr>
        \<lparr>status = 200, content = Json (JObj [(''message'', JStr ''Hello World'')]),
         location = None\<rparr>]
     \<lparr>phase = Serving, state = snd (on_startup (loaded Map.empty True True))\<rparr> \<and>
   connects (snd (on_startup (loaded Map.empty True True))) = 1 \<and>
   files (snd (on_startup (loaded Map.empty True True))) ''database.db'' = Some []"
proof -
  let ?w = "loaded Map.empty True True"
  let ?rq = "\<lparr>http_method = ''GET'', path = ''/'', headers = [], body = []\<rparr>"
  let ?rsp = "\<lparr>status = 200, content = Json (JObj [(''message'', JStr ''Hello World'')]),
               location = None\<rparr>"
  let ?s1 = "\<lparr>phase = Serving, state = snd (on_startup ?w)\<rparr>"
  have a: "the_app ?w = app" by (simp add: loaded_def)
  have ok: "fst (on_startup ?w) = None"
    by (simp add: on_startup_def create_db_and_tables_result loaded_def)
  have "step (launch ?w) StartupComplete ?s1"
    using ok by (intro step_boot) (simp_all add: launch_def boot_app [OF a, unfolded launch_def])
  moreover have "handle (snd (on_startup ?w)) ?rq = (?rsp, snd (on_startup ?w))"
    by (rule handle_root) (simp_all add: on_startup_keeps_app a)
  then have "step ?s1 (Handled ?rq ?rsp) ?s1"
    by (intro step_serve [where rq = ?rq]) (simp_all add: serve_def)
  ultimately have r: "run (launch ?w) [StartupComplete, Handled ?rq ?rsp] ?s1"
    by (rule run_two)
  have fl: "files (snd (on_startup ?w)) ''database.db'' = Some []"
    by (simp add: on_startup_def create_db_and_tables_result loaded_def db_path_engine)
  from startup_precedes_requests [OF r a] have "connects (snd (on_startup ?w)) = connects ?w + 1"
    by simp
  then show ?thesis using r fl by (simp add: loaded_def)
qed

text \<open>
  Claim C6. If schema initialisation fails, the startup hook fails with the same error
  after a single attempt (there is no retry), process startup aborts, and the application
  never serves a request: an execution holds at most the failed startup and no handled
  request, and the failed process takes no further step.
\<close>

theorem server_aborts_on_failed_startup:
  assumes "the_app w = app" and "fst (create_db_and_tables w) = Some e"
    and "run (launch w) tr s"
  shows "fst (on_startup w) = Some e \<and>
         connects (snd (on_startup w)) = connects w + 1 \<and>
         boot (launch w) = (StartupFailed e, \<lparr>phase = Failed, state = snd (on_startup w)\<rparr>) \<and>
         (tr = [] \<or> tr = [StartupFailed e]) \<and>
         \<not> list_ex is_handled tr \<and>
         (\<forall>ev s'. \<not> step \<lparr>phase = Failed, state = snd (on_startup w)\<rparr> ev s')"
proof -
  have f: "fst (on_startup w) = Some e"
    using assms(2) by (simp add: on_startup_def)
  have "tr = [] \<or> tr = [StartupFailed e]"
    using run_shape [OF assms(3) refl assms(1)] f by auto
  moreover have "connects (snd (on_startup w)) = connects w + 1"
    by (simp add: on_startup_def create_db_and_tables_result)
  moreover have "\<not> step \<lparr>phase = Failed, state = snd (on_startup w)\<rparr> ev s'" for ev s'
    by (rule failed_is_terminal) simp
  ultimately show ?thesis
    using f by (auto simp: boot_app [OF assms(1)])
qed

theorem server_aborts_on_failed_startup_witness:
  "fst (on_startup (loaded Map.empty False True)) = Some OperationalError \<and>
   connects (snd (on_startup (loaded Map.empty False True))) = 1 \<and>
   boot (launch (loaded Map.empty False True)) =
     (StartupFailed OperationalError,
      \<lparr>phase = Failed, state = snd (on_startup (loaded Map.empty False True))\<rparr>) \<and>
   run (launch (loaded Map.empty False True)) [StartupFailed OperationalError]
     \<lparr>phase = Failed, state = snd (on_startup (loaded Map.empty False True))\<rparr> \<and>
   \<not> list_ex is_handled [StartupFailed OperationalError] \<and>
   (\<forall>ev s'. \<not> step \<lparr>phase = Failed, state = snd (on_startup (loaded Map.empty False True))\<rparr>
      ev s')"
proof -
  let ?w = "loaded Map.empty False True"
  let ?sf = "\<lparr>phase = Failed, state = snd (on_startup ?w)\<rparr>"
  have a: "the_app ?w = app" by (simp add: loaded_def)
  have f: "fst (create_db_and_tables ?w) = Some OperationalError"
    by (simp add: create_db_and_tables_result loaded_def)
  then have "boot (launch ?w) = (StartupFailed OperationalError, ?sf)"
    by (simp add: boot_app [OF a] on_startup_def)
  then have "step (launch ?w) (StartupFailed OperationalError) ?sf"
    by (intro step_boot) (simp_all add: launch_def)
  then have r: "run (launch ?w) [StartupFailed OperationalError] ?sf"
    by (rule run_one)
  from server_aborts_on_failed_startup [OF a f r] r show ?thesis
    by (simp add: loaded_def)
qed

text \<open>
  Claim C7. Starting the process with no database file and then issuing \<open>GET /\<close>: startup
  completes, the request is answered with status 200 and the body
  \<open>{"message": "Hello World"}\<close>, and afterwards the file \<open>database.db\<close> exists and holds
  no table.
\<close>

theorem fresh_start_then_root:
  assumes "the_app w = app" and "the_engine w = engine"
    and "files w ''database.db'' = None" and "can_open w"
    and "http_method rq = ''GET''" and "path rq = ''/''"
  shows "fst (boot (launch w)) = StartupComplete \<and>
         fst (serve (snd (boot (launch w))) rq) =
           Handled rq \<lparr>status = 200,
             content = Json (JObj [(''message'', JStr ''Hello World'')]), location = None\<rparr> \<and>
         files (state (snd (serve (snd (boot (launch w))) rq))) ''database.db'' = Some [] \<and>
         run (launch w)
           [StartupComplete,
            Handled rq \<lparr>status = 200,
              content = Json (JObj [(''message'', JStr ''Hello World'')]), location = None\<rparr>]
           (snd (serve (snd (boot (launch w))) rq))"
proof -
  let ?w1 = "snd (on_startup w)"
  let ?s1 = "\<lparr>phase = Serving, state = ?w1\<rparr>"
  let ?rsp = "\<lparr>status = 200, content = Json (JObj [(''message'', JStr ''Hello World'')]),
               location = None\<rparr>"
  have ok: "fst (on_startup w) = None"
    using assms(4) by (simp add: on_startup_def create_db_and_tables_result)
  have b: "boot (launch w) = (StartupComplete, ?s1)"
    using ok by (simp add: boot_app [OF assms(1)])
  have "the_app ?w1 = app"
    using assms(1) by (simp add: on_startup_keeps_app)
  then have h: "handle ?w1 rq = (?rsp, ?w1)"
    using assms(5,6) by (rule handle_root)
  have sv: "serve ?s1 rq = (Handled rq ?rsp, ?s1)"
    using h by (simp add: serve_def)
  have fl: "files ?w1 ''database.db'' = Some []"
    using assms(2,3,4) by (simp add: on_startup_def create_db_and_tables_result db_path_engine)
  have "step (launch w) StartupComplete ?s1"
    using b by (intro step_boot) (simp_all add: launch_def)
  moreover have "step ?s1 (Handled rq ?rsp) ?s1"
    using sv by (intro step_serve [where rq = rq]) simp_all
  ultimately have "run (launch w) [StartupComplete, Handled rq ?rsp] ?s1"
    by (rule run_two)
  then show ?thesis
    using b sv fl by simp
qed

theorem fresh_start_then_root_witness:
  "fst (boot (launch (loaded Map.empty True True))) = StartupComplete \<and>
   fst (serve (snd (boot (launch (loaded Map.empty True True))))
         \<lparr>http_method = ''GET'', path = ''/'', headers = [], body = []\<rparr>) =
     Handled \<lparr>http_method = ''GET'', path = ''/'', headers = [], body = []\<rparr>
       \<lparr>status = 200, content = Json (JObj [(''message'', JStr ''Hello World'')]),
        location = None\<rparr> \<and>
   files (state (snd (serve (snd (boot (launch (loaded Map.empty True True))))
         \<lparr>http_method = ''GET'', path = ''/'', headers = [], body = []\<rparr>)))
     ''database.db'' = Some [] \<and>
   run (launch (loaded Map.empty True True))
     [StartupComplete,
      Handled \<lparr>http_method = ''GET'', path = ''/'', headers = [], body = []\<rparr>
        \<lparr>status = 200, content = Json (JObj [(''message'', JStr ''Hello World'')]),
         location = None\<rparr>]
     (snd (serve (snd (boot (launch (loaded Map.empty True True))))
         \<lparr>http_method = ''GET'', path = ''/'', headers = [], body = []\<rparr>))"
  using fresh_start_then_root [of "loaded Map.empty True True"
      "\<lparr>http_method = ''GET'', path = ''/'', headers = [], body = []\<rparr>"]
  by (simp add: loaded_def)

end
